theory Spec2Isabelle
  imports Complex_Main "HOL-Library.AList" "HOL-Library.Sublist" "HOL-Library.FSet"
begin

section \<open>Python values\<close>

text \<open>
  The trie of \<^verbatim>\<open>trie_core.py\<close> and \<^verbatim>\<open>generate_trie.py\<close> is a nest of Python dicts
  keyed by strings. A dict is an association list in insertion order (Python dicts
  iterate in insertion order); a set is a finite set, which records no order.
  Characters are code points 0 to 255. Values that the code never meets (floats,
  booleans, dicts keyed by anything but strings) are left out.
\<close>

datatype pyobj =
    PNone
  | PInt int
  | PStr string
  | PList "pyobj list"
  | PTuple "pyobj list"
  | PSet "pyobj fset"
  | PDict "(string \<times> pyobj) list"

datatype error =
    TypeError
  | AttributeError
  | KeyError
  | ValueError
  | FileNotFoundError
  | JSONDecodeError
  | OSError
  | SystemExit

text \<open>Sequencing of statements that may raise: the first exception ends the run.\<close>

definition bindE :: "error + 'a \<Rightarrow> ('a \<Rightarrow> error + 'b) \<Rightarrow> error + 'b" where
  "bindE m f = (case m of Inl e \<Rightarrow> Inl e | Inr v \<Rightarrow> f v)"

subsection \<open>Built-in operations\<close>

fun hashable :: "pyobj \<Rightarrow> bool" where
  "hashable (PList xs) = False"
| "hashable (PDict kvs) = False"
| "hashable (PSet s) = False"
| "hashable (PTuple xs) = list_all hashable xs"
| "hashable x = True"

text \<open>\<^verbatim>\<open>bool(x)\<close>, as \<^verbatim>\<open>not prefix\<close> reads it.\<close>

fun py_truthy :: "pyobj \<Rightarrow> bool" where
  "py_truthy PNone = False"
| "py_truthy (PInt n) = (n \<noteq> 0)"
| "py_truthy (PStr s) = (s \<noteq> [])"
| "py_truthy (PList xs) = (xs \<noteq> [])"
| "py_truthy (PTuple xs) = (xs \<noteq> [])"
| "py_truthy (PSet s) = (s \<noteq> {||})"
| "py_truthy (PDict kvs) = (kvs \<noteq> [])"

text \<open>\<^verbatim>\<open>len(x)\<close>.\<close>

fun py_len :: "pyobj \<Rightarrow> error + nat" where
  "py_len PNone = Inl TypeError"
| "py_len (PInt n) = Inl TypeError"
| "py_len (PStr s) = Inr (length s)"
| "py_len (PList xs) = Inr (length xs)"
| "py_len (PTuple xs) = Inr (length xs)"
| "py_len (PSet s) = Inr (fcard s)"
| "py_len (PDict kvs) = Inr (length kvs)"

text \<open>\<^verbatim>\<open>x in c\<close>: key lookup in a dict, membership in a list, tuple or set, substring
  test in a string.\<close>

fun py_contains :: "pyobj \<Rightarrow> pyobj \<Rightarrow> error + bool" where
  "py_contains x (PDict kvs) =
     (if hashable x
      then Inr (case x of PStr k \<Rightarrow> k \<in> fst ` set kvs | _ \<Rightarrow> False)
      else Inl TypeError)"
| "py_contains x (PList xs) = Inr (x \<in> set xs)"
| "py_contains x (PTuple xs) = Inr (x \<in> set xs)"
| "py_contains x (PSet s) = (if hashable x then Inr (x |\<in>| s) else Inl TypeError)"
| "py_contains x (PStr s) = (case x of PStr t \<Rightarrow> Inr (sublist t s) | _ \<Rightarrow> Inl TypeError)"
| "py_contains x PNone = Inl TypeError"
| "py_contains x (PInt n) = Inl TypeError"

text \<open>\<^verbatim>\<open>c[k]\<close> and \<^verbatim>\<open>c[k] = v\<close> where \<^verbatim>\<open>k\<close> is a string, the only subscripts in the source.
  Assigning to a key a dict already has keeps the key's position; a new key goes last.\<close>

fun py_getitem_str :: "pyobj \<Rightarrow> string \<Rightarrow> error + pyobj" where
  "py_getitem_str (PDict kvs) k = (case map_of kvs k of Some v \<Rightarrow> Inr v | None \<Rightarrow> Inl KeyError)"
| "py_getitem_str c k = Inl TypeError"

fun py_setitem_str :: "pyobj \<Rightarrow> string \<Rightarrow> pyobj \<Rightarrow> error + pyobj" where
  "py_setitem_str (PDict kvs) k v = Inr (PDict (AList.update k v kvs))"
| "py_setitem_str c k v = Inl TypeError"

text \<open>\<^verbatim>\<open>c.append(x)\<close> and \<^verbatim>\<open>c.add(x)\<close>.\<close>

fun py_append :: "pyobj \<Rightarrow> pyobj \<Rightarrow> error + pyobj" where
  "py_append (PList xs) x = Inr (PList (xs @ [x]))"
| "py_append c x = Inl AttributeError"


subsection \<open>String methods\<close>

text \<open>\<^verbatim>\<open>str.lower\<close> on code points 0 to 255: A to Z and the accented capitals
  (192 to 214, 216 to 222) move up by 32.\<close>

definition lower_char :: "char \<Rightarrow> char" where
  "lower_char c =
     (let n = (of_char c :: nat)
      in if (65 \<le> n \<and> n \<le> 90) \<or> (192 \<le> n \<and> n \<le> 214) \<or> (216 \<le> n \<and> n \<le> 222)
         then char_of (n + 32) else c)"

definition str_lower :: "string \<Rightarrow> string" where
  "str_lower s = map lower_char s"

text \<open>\<^verbatim>\<open>x.lower()\<close> on any value: only a string has the method.\<close>

fun py_lower :: "pyobj \<Rightarrow> error + string" where
  "py_lower (PStr s) = Inr (str_lower s)"
| "py_lower x = Inl AttributeError"

text \<open>\<^verbatim>\<open>str.strip()\<close>: the white space of Python among code points 0 to 255.\<close>

definition is_space :: "char \<Rightarrow> bool" where
  "is_space c =
     (let n = (of_char c :: nat)
      in (9 \<le> n \<and> n \<le> 13) \<or> (28 \<le> n \<and> n \<le> 32) \<or> n = 133 \<or> n = 160)"

definition str_strip :: "string \<Rightarrow> string" where
  "str_strip s = rev (dropWhile is_space (rev (dropWhile is_space s)))"

text \<open>\<^verbatim>\<open>s.split(sep)\<close>: cuts at each occurrence of \<^verbatim>\<open>sep\<close>, left to right; an empty
  separator raises ValueError.\<close>

fun split_from :: "string \<Rightarrow> string \<Rightarrow> string \<Rightarrow> string list" where
  "split_from sep cur [] = [cur]"
| "split_from sep cur (c # cs) =
     (if prefix sep (c # cs)
      then cur # split_from sep [] (drop (length sep - 1) cs)
      else split_from sep (cur @ [c]) cs)"

definition str_split :: "string \<Rightarrow> string \<Rightarrow> error + string list" where
  "str_split s sep = (if sep = [] then Inl ValueError else Inr (split_from sep [] s))"

section \<open>The files the program reads and writes\<close>

text \<open>
  What the program observes of its environment: \<^verbatim>\<open>os.path.getmtime\<close> of a path
  (None when it raises OSError), what \<^verbatim>\<open>pd.read_csv(path, usecols=[id_col, data_col])\<close>
  yields (the rows as pairs of the id and the data cell, None for a cell that
  \<^verbatim>\<open>pd.isna\<close> accepts, else its \<^verbatim>\<open>str\<close>), what \<^verbatim>\<open>open\<close> and \<^verbatim>\<open>json.load\<close> yield on a path
  (FileNotFoundError for no file, JSONDecodeError for text that is no JSON document),
  whether a write to a path fails after the file was opened, the clock, and the lines
  printed.
\<close>

datatype message =
    MsgUpToDate
  | MsgGenerating
  | MsgErrorReadingCSV
  | MsgGenerationComplete
  | MsgCouldNotLoad
  | MsgNotFound
  | MsgSaving
  | MsgDone

record world =
  getmtime :: "string \<Rightarrow> real option"
  read_csv :: "string \<Rightarrow> string \<Rightarrow> string \<Rightarrow> error + (pyobj \<times> string option) list"
  json_load :: "string \<Rightarrow> error + pyobj"
  write_fails :: "string \<Rightarrow> bool"
  clock :: real
  stdout :: "message list"

definition print :: "message \<Rightarrow> world \<Rightarrow> world" where
  "print msg w = w\<lparr>stdout := stdout w @ [msg]\<rparr>"

text \<open>\<^verbatim>\<open>json.dump\<close> of a value, as the value \<^verbatim>\<open>json.load\<close> reads back: a tuple comes back
  as a list; a set has no encoding and goes to the \<^verbatim>\<open>default\<close> hook (what the hook
  returns is written as it is: the hook of this program returns lists of ids).\<close>

fun json_encode :: "(pyobj \<Rightarrow> error + pyobj) \<Rightarrow> pyobj \<Rightarrow> error + pyobj"
and json_encode_list :: "(pyobj \<Rightarrow> error + pyobj) \<Rightarrow> pyobj list \<Rightarrow> error + pyobj list"
and json_encode_items ::
  "(pyobj \<Rightarrow> error + pyobj) \<Rightarrow> (string \<times> pyobj) list \<Rightarrow> error + (string \<times> pyobj) list" where
  "json_encode dflt PNone = Inr PNone"
| "json_encode dflt (PInt n) = Inr (PInt n)"
| "json_encode dflt (PStr s) = Inr (PStr s)"
| "json_encode dflt (PList xs) =
     (case json_encode_list dflt xs of Inl e \<Rightarrow> Inl e | Inr ys \<Rightarrow> Inr (PList ys))"
| "json_encode dflt (PTuple xs) =
     (case json_encode_list dflt xs of Inl e \<Rightarrow> Inl e | Inr ys \<Rightarrow> Inr (PList ys))"
| "json_encode dflt (PDict kvs) =
     (case json_encode_items dflt kvs of Inl e \<Rightarrow> Inl e | Inr ys \<Rightarrow> Inr (PDict ys))"
| "json_encode dflt (PSet s) = dflt (PSet s)"
| "json_encode_list dflt [] = Inr []"
| "json_encode_list dflt (x # xs) =
     (case json_encode dflt x of
        Inl e \<Rightarrow> Inl e
      | Inr y \<Rightarrow> (case json_encode_list dflt xs of Inl e \<Rightarrow> Inl e | Inr ys \<Rightarrow> Inr (y # ys)))"
| "json_encode_items dflt [] = Inr []"
| "json_encode_items dflt ((k, v) # kvs) =
     (case json_encode dflt v of
        Inl e \<Rightarrow> Inl e
      | Inr y \<Rightarrow> (case json_encode_items dflt kvs of Inl e \<Rightarrow> Inl e | Inr ys \<Rightarrow> Inr ((k, y) # ys)))"

text \<open>Without a hook, \<^verbatim>\<open>json.dump\<close> raises TypeError on a value it cannot encode.\<close>

definition json_default :: "pyobj \<Rightarrow> error + pyobj" where
  "json_default obj = Inl TypeError"

text \<open>\<^verbatim>\<open>open(path, 'w')\<close> empties the file at once: from then on loading it fails to
  decode, until a complete document has been written.\<close>

definition open_w :: "world \<Rightarrow> string \<Rightarrow> world" where
  "open_w w path =
     w\<lparr>json_load := (json_load w)(path := Inl JSONDecodeError),
       getmtime := (getmtime w)(path \<mapsto> clock w)\<rparr>"

text \<open>\<^verbatim>\<open>with open(path, 'w') as f: json.dump(obj, f, ...)\<close>: the text is written into the
  opened file; an exception on the way leaves what was written so far.\<close>

definition dump_to :: "world \<Rightarrow> string \<Rightarrow> (pyobj \<Rightarrow> error + pyobj) \<Rightarrow> pyobj \<Rightarrow> world \<times> (error + unit)" where
  "dump_to w path dflt obj =
     (let w1 = open_w w path
      in case json_encode dflt obj of
           Inl e \<Rightarrow> (w1, Inl e)
         | Inr v \<Rightarrow>
             if write_fails w path then (w1, Inl OSError)
             else (w1\<lparr>json_load := (json_load w1)(path := Inr v)\<rparr>, Inr ()))"

section \<open>trie\_core.py: TrieManager\<close>

record manager =
  source_csv :: string
  output_json :: string
  id_col :: string
  data_col :: string
  separator :: string
  trie_root :: pyobj

definition TrieManager_get_file_mtime :: "world \<Rightarrow> string \<Rightarrow> real" where
  "TrieManager_get_file_mtime w filepath =
     (case getmtime w filepath of Some t \<Rightarrow> t | None \<Rightarrow> 0)"

text \<open>The loop \<^verbatim>\<open>for char in clean_word\<close> of \<^verbatim>\<open>_add_to_trie\<close> (the same loop stands in
  \<^verbatim>\<open>add_to_trie\<close> of generate\_trie.py), followed by what is done at the node it ends
  on. The node is updated in place in the source; here the updated child is stored
  back under its key, which keeps the key's position.\<close>

fun add_chars :: "(pyobj \<Rightarrow> error + pyobj) \<Rightarrow> pyobj \<Rightarrow> string \<Rightarrow> error + pyobj" where
  "add_chars at_end node [] = at_end node"
| "add_chars at_end node (char # rest) =
     bindE (py_contains (PStr [char]) node) (\<lambda>present.
     bindE (if \<not> present then py_setitem_str node [char] (PDict []) else Inr node) (\<lambda>node1.
     bindE (py_getitem_str node1 [char]) (\<lambda>child.
     bindE (add_chars at_end child rest) (\<lambda>child'.
     py_setitem_str node1 [char] child'))))"

text \<open>Lines 39 to 44 of trie\_core.py: the id list of the node, extended by an id it
  does not hold yet.\<close>

definition add_doc_id :: "pyobj \<Rightarrow> pyobj \<Rightarrow> error + pyobj" where
  "add_doc_id doc_id node =
     bindE (py_contains (PStr ''__ids__'') node) (\<lambda>has.
     bindE (if \<not> has then py_setitem_str node ''__ids__'' (PList []) else Inr node) (\<lambda>node1.
     bindE (py_getitem_str node1 ''__ids__'') (\<lambda>ids.
     bindE (py_contains doc_id ids) (\<lambda>seen.
     if \<not> seen
     then bindE (py_append ids doc_id) (\<lambda>ids'. py_setitem_str node1 ''__ids__'' ids')
     else Inr node1))))"

definition TrieManager_add_to_trie :: "pyobj \<Rightarrow> string \<Rightarrow> pyobj \<Rightarrow> error + pyobj" where
  "TrieManager_add_to_trie trie word doc_id =
     (let clean_word = str_strip (str_lower word)
      in if clean_word = [] then Inr trie
         else add_chars (add_doc_id doc_id) trie clean_word)"

text \<open>The two loops of \<^verbatim>\<open>_generate_trie_if_needed\<close> (lines 65 to 73).\<close>

fun add_items :: "pyobj \<Rightarrow> string list \<Rightarrow> pyobj \<Rightarrow> error + pyobj" where
  "add_items trie [] doc_id = Inr trie"
| "add_items trie (item # items) doc_id =
     bindE (TrieManager_add_to_trie trie item doc_id) (\<lambda>trie'. add_items trie' items doc_id)"

fun add_rows :: "string \<Rightarrow> pyobj \<Rightarrow> (pyobj \<times> string option) list \<Rightarrow> error + pyobj" where
  "add_rows sep trie [] = Inr trie"
| "add_rows sep trie ((doc_id, data_str) # rows) =
     (case data_str of
        None \<Rightarrow> add_rows sep trie rows
      | Some s \<Rightarrow>
          bindE (str_split s sep) (\<lambda>items.
          bindE (add_items trie items doc_id) (\<lambda>trie'.
          add_rows sep trie' rows)))"

definition TrieManager_generate_trie_if_needed :: "world \<Rightarrow> manager \<Rightarrow> world \<times> (error + manager)" where
  "TrieManager_generate_trie_if_needed w m =
     (let input_mtime = TrieManager_get_file_mtime w (source_csv m);
          output_mtime = TrieManager_get_file_mtime w (output_json m)
      in if output_mtime > input_mtime \<and> output_mtime > 0
         then (print MsgUpToDate w, Inr m)
         else
           (let w1 = print MsgGenerating w
            in case read_csv w1 (source_csv m) (id_col m) (data_col m) of
                 Inl e \<Rightarrow>
                   if e = FileNotFoundError \<or> e = ValueError
                   then (print MsgErrorReadingCSV w1, Inr (m\<lparr>trie_root := PDict []\<rparr>))
                   else (w1, Inl e)
               | Inr rows \<Rightarrow>
                   (case add_rows (separator m) (PDict []) rows of
                      Inl e \<Rightarrow> (w1, Inl e)
                    | Inr temp_root \<Rightarrow>
                        (case dump_to w1 (output_json m) json_default temp_root of
                           (w2, Inl e) \<Rightarrow> (w2, Inl e)
                         | (w2, Inr u) \<Rightarrow> (print MsgGenerationComplete w2, Inr m)))))"

definition TrieManager_load_trie :: "world \<Rightarrow> manager \<Rightarrow> world \<times> (error + manager)" where
  "TrieManager_load_trie w m =
     (case json_load w (output_json m) of
        Inr v \<Rightarrow> (w, Inr (m\<lparr>trie_root := v\<rparr>))
      | Inl e \<Rightarrow>
          if e = FileNotFoundError \<or> e = JSONDecodeError
          then (print MsgCouldNotLoad w, Inr (m\<lparr>trie_root := PDict []\<rparr>))
          else (w, Inl e))"

text \<open>\<^verbatim>\<open>TrieManager.__init__\<close>; paths are taken in their absolute form.\<close>

definition TrieManager_init ::
  "world \<Rightarrow> string \<Rightarrow> string \<Rightarrow> string \<Rightarrow> string \<Rightarrow> string \<Rightarrow> world \<times> (error + manager)" where
  "TrieManager_init w src out idc datc sep =
     (let m = \<lparr>source_csv = src, output_json = out, id_col = idc, data_col = datc,
               separator = sep, trie_root = PDict []\<rparr>
      in case TrieManager_generate_trie_if_needed w m of
           (w1, Inl e) \<Rightarrow> (w1, Inl e)
         | (w1, Inr m1) \<Rightarrow> TrieManager_load_trie w1 m1)"

subsection \<open>search\<close>

text \<open>\<^verbatim>\<open>_dfs\<close>: the word of a node that has the key \<^verbatim>\<open>__ids__\<close> is appended to the
  results, then the children are visited in the order of the dict.\<close>

fun TrieManager_dfs :: "pyobj \<Rightarrow> string \<Rightarrow> pyobj list \<Rightarrow> error + pyobj list"
and dfs_items :: "(string \<times> pyobj) list \<Rightarrow> string \<Rightarrow> pyobj list \<Rightarrow> error + pyobj list" where
  "TrieManager_dfs (PDict kvs) current_word results =
     dfs_items kvs current_word
       (if ''__ids__'' \<in> fst ` set kvs then results @ [PStr current_word] else results)"
| "TrieManager_dfs (PList xs) current_word results = Inl AttributeError"
| "TrieManager_dfs (PTuple xs) current_word results = Inl AttributeError"
| "TrieManager_dfs (PSet s) current_word results = Inl AttributeError"
| "TrieManager_dfs (PStr s) current_word results = Inl AttributeError"
| "TrieManager_dfs PNone current_word results = Inl TypeError"
| "TrieManager_dfs (PInt n) current_word results = Inl TypeError"
| "dfs_items [] current_word results = Inr results"
| "dfs_items ((char, child_node) # rest) current_word results =
     (if char \<noteq> ''__ids__''
      then bindE (TrieManager_dfs child_node (current_word @ char) results)
             (\<lambda>results'. dfs_items rest current_word results')
      else dfs_items rest current_word results)"

text \<open>The loop of \<^verbatim>\<open>search\<close> along the prefix (lines 103 to 107); None stands for its
  \<^verbatim>\<open>return []\<close>.\<close>

fun descend :: "pyobj \<Rightarrow> string \<Rightarrow> error + pyobj option" where
  "descend node [] = Inr (Some node)"
| "descend node (char # rest) =
     bindE (py_contains (PStr [char]) node) (\<lambda>present.
     if present then bindE (py_getitem_str node [char]) (\<lambda>child. descend child rest)
     else Inr None)"

definition TrieManager_search :: "manager \<Rightarrow> pyobj \<Rightarrow> error + pyobj list" where
  "TrieManager_search m pfx =
     (if \<not> py_truthy pfx then Inr []
      else
        bindE (py_len pfx) (\<lambda>n.
        if n < 1 then Inr []
        else
          bindE (py_lower pfx) (\<lambda>p.
          bindE (descend (trie_root m) p) (\<lambda>found.
          case found of
            None \<Rightarrow> Inr []
          | Some node \<Rightarrow> TrieManager_dfs node p []))))"

section \<open>generate\_trie.py\<close>













section \<open>What is stated about tries\<close>

text \<open>A sequence of calls of \<^verbatim>\<open>_add_to_trie\<close>, each given a word and a document id.\<close>

fun add_words :: "pyobj \<Rightarrow> (string \<times> pyobj) list \<Rightarrow> error + pyobj" where
  "add_words trie [] = Inr trie"
| "add_words trie ((word, doc_id) # rest) =
     bindE (TrieManager_add_to_trie trie word doc_id) (\<lambda>trie'. add_words trie' rest)"


text \<open>The normal form of a word: what \<^verbatim>\<open>_add_to_trie\<close> spells into the trie.\<close>

definition clean :: "string \<Rightarrow> string" where
  "clean word = str_strip (str_lower word)"

text \<open>The node reached from a node along a path of one-character keys.\<close>

fun node_at :: "pyobj \<Rightarrow> string \<Rightarrow> pyobj option" where
  "node_at node [] = Some node"
| "node_at (PDict kvs) (c # cs) =
     (case map_of kvs [c] of Some child \<Rightarrow> node_at child cs | None \<Rightarrow> None)"
| "node_at node (c # cs) = None"

text \<open>The id list a node carries under the key \<^verbatim>\<open>__ids__\<close>, if it has the key.\<close>

fun ids_of :: "pyobj \<Rightarrow> pyobj option" where
  "ids_of (PDict kvs) = map_of kvs ''__ids__''"
| "ids_of node = None"

definition ids_at :: "pyobj \<Rightarrow> string \<Rightarrow> pyobj option" where
  "ids_at trie w = (case node_at trie w of Some node \<Rightarrow> ids_of node | None \<Rightarrow> None)"

text \<open>All keys of a dict and of the dicts nested in it as values.\<close>

fun all_keys :: "pyobj \<Rightarrow> string list"
and all_keys_items :: "(string \<times> pyobj) list \<Rightarrow> string list" where
  "all_keys (PDict kvs) = all_keys_items kvs"
| "all_keys (PList xs) = []"
| "all_keys (PTuple xs) = []"
| "all_keys (PSet s) = []"
| "all_keys (PStr s) = []"
| "all_keys (PInt n) = []"
| "all_keys PNone = []"
| "all_keys_items [] = []"
| "all_keys_items ((k, v) # kvs) = k # all_keys v @ all_keys_items kvs"

text \<open>A list without repetitions that keeps each element where it came first.\<close>

fun first_seen :: "'a list \<Rightarrow> 'a list" where
  "first_seen [] = []"
| "first_seen (x # xs) = x # removeAll x (first_seen xs)"

text \<open>The ids given with the words whose normal form is \<^verbatim>\<open>w\<close>, in the order of the
  calls.\<close>

definition ids_given :: "(string \<times> pyobj) list \<Rightarrow> string \<Rightarrow> pyobj list" where
  "ids_given calls w = map snd (filter (\<lambda>call. clean (fst call) = w) calls)"

text \<open>The shape of the tries that \<^verbatim>\<open>_add_to_trie\<close> makes: dicts without repeated keys,
  whose key \<^verbatim>\<open>__ids__\<close> holds a list and whose other keys hold dicts of the same
  shape.\<close>

fun trie_shaped :: "pyobj \<Rightarrow> bool" where
  "trie_shaped (PDict kvs) =
     (distinct (map fst kvs) \<and>
      (\<forall>kv \<in> set kvs.
         if fst kv = ''__ids__'' then (case snd kv of PList ids \<Rightarrow> True | _ \<Rightarrow> False)
         else length (fst kv) = 1 \<and> trie_shaped (snd kv)))"
| "trie_shaped node = False"

text \<open>Values that \<^verbatim>\<open>json.dump\<close> writes and \<^verbatim>\<open>json.load\<close> reads back unchanged.\<close>

fun json_plain :: "pyobj \<Rightarrow> bool" where
  "json_plain (PDict kvs) = (\<forall>kv \<in> set kvs. json_plain (snd kv))"
| "json_plain (PList xs) = (\<forall>x \<in> set xs. json_plain x)"
| "json_plain (PTuple xs) = False"
| "json_plain (PSet s) = False"
| "json_plain x = True"

text \<open>What lines 39 to 44 of trie\_core.py make of an id list and one more id.\<close>

definition add_new :: "'a \<Rightarrow> 'a list \<Rightarrow> 'a list" where
  "add_new d ids = (if d \<in> set ids then ids else ids @ [d])"

fun id_list :: "pyobj option \<Rightarrow> pyobj list" where
  "id_list (Some (PList ids)) = ids"
| "id_list other = []"

text \<open>The lines a run has printed.\<close>

definition printed :: "world \<Rightarrow> world \<Rightarrow> message list" where
  "printed w w' = drop (length (stdout w)) (stdout w')"


text \<open>The test \<^verbatim>\<open>"__ids__" in node\<close> of the source.\<close>

definition has_ids :: "pyobj \<Rightarrow> bool" where
  "has_ids node = (py_contains (PStr ''__ids__'') node = Inr True)"

section \<open>Example runs\<close>

text \<open>The table of the scenario of the specification, read with the columns
  \<^verbatim>\<open>id\<close> and \<^verbatim>\<open>ingredients\<close>; there is no output file yet.\<close>

definition scenario_rows :: "(pyobj \<times> string option) list" where
  "scenario_rows =
     [(PInt 1, Some ''Tomato;Onion''), (PInt 2, Some ''tomato;Garlic''), (PInt 3, Some ''Onion'')]"

definition scenario_world :: world where
  "scenario_world =
     \<lparr>getmtime = (\<lambda>p. if p = ''/data/db.csv'' then Some 100 else None),
      read_csv = (\<lambda>p i d.
         if p = ''/data/db.csv''
         then (if i = ''id'' \<and> d = ''ingredients'' then Inr scenario_rows else Inl ValueError)
         else Inl FileNotFoundError),
      json_load = (\<lambda>p. Inl FileNotFoundError),
      write_fails = (\<lambda>p. False),
      clock = 200,
      stdout = []\<rparr>"

definition scenario_manager :: manager where
  "scenario_manager =
     (case snd (TrieManager_init scenario_world ''/data/db.csv'' ''/data/trie.json''
                  ''id'' ''ingredients'' '';'') of
        Inr m \<Rightarrow> m
      | Inl e \<Rightarrow> \<lparr>source_csv = [], output_json = [], id_col = [], data_col = [],
                  separator = [], trie_root = PNone\<rparr>)"


definition example_manager :: manager where
  "example_manager =
     \<lparr>source_csv = ''/data/db.csv'', output_json = ''/data/trie.json'', id_col = ''id'',
      data_col = ''ingredients'', separator = '';'', trie_root = PDict []\<rparr>"

text \<open>Four calls of \<^verbatim>\<open>_add_to_trie\<close>.\<close>

definition example_calls :: "(string \<times> pyobj) list" where
  "example_calls =
     [(''Tomato'', PInt 1), ('' onion'', PInt 8), (''tomato '', PInt 2), (''TOMATO'', PInt 1)]"





text \<open>The trie of the scenario.\<close>

definition scenario_trie :: pyobj where
  "scenario_trie =
     PDict
      [(''t'', PDict [(''o'', PDict [(''m'', PDict [(''a'', PDict [(''t'', PDict [(''o'',
          PDict [(''__ids__'', PList [PInt 1, PInt 2])])])])])])]),
       (''o'', PDict [(''n'', PDict [(''i'', PDict [(''o'', PDict [(''n'',
          PDict [(''__ids__'', PList [PInt 1, PInt 3])])])])])]),
       (''g'', PDict [(''a'', PDict [(''r'', PDict [(''l'', PDict [(''i'', PDict [(''c'',
          PDict [(''__ids__'', PList [PInt 2])])])])])])])]"

section \<open>Freshness\<close>

lemma stdout_print [simp]: "stdout (print msg w) = stdout w @ [msg]"
  by (simp add: print_def)

lemma getmtime_print [simp]: "getmtime (print msg w) = getmtime w"
  by (simp add: print_def)

lemma read_csv_print [simp]: "read_csv (print msg w) = read_csv w"
  by (simp add: print_def)

lemma json_load_print [simp]: "json_load (print msg w) = json_load w"
  by (simp add: print_def)

lemma write_fails_print [simp]: "write_fails (print msg w) = write_fails w"
  by (simp add: print_def)


lemma printed_append [simp]: "printed w (w'\<lparr>stdout := stdout w @ msgs\<rparr>) = msgs"
  by (simp add: printed_def)









section \<open>What one call of \<^verbatim>\<open>_add_to_trie\<close> does\<close>

lemma bindE_Inl [simp]: "bindE (Inl e) f = Inl e"
  by (simp add: bindE_def)

lemma bindE_Inr [simp]: "bindE (Inr v) f = f v"
  by (simp add: bindE_def)

lemma set_update_cases:
  "kv \<in> set (AList.update k v al) \<Longrightarrow> kv = (k, v) \<or> kv \<in> set al"
  by (induction al) (auto split: if_splits)

lemma map_of_update_same [simp]: "map_of (AList.update k v al) k = Some v"
  by (simp add: update_conv')

lemma map_of_update_other [simp]: "k' \<noteq> k \<Longrightarrow> map_of (AList.update k v al) k' = map_of al k'"
  by (simp add: update_conv')

lemma ball_update:
  assumes "\<forall>kv \<in> set al. P kv" and "P (k, v)"
  shows "\<forall>kv \<in> set (AList.update k v al). P kv"
  using assms set_update_cases [of _ k v al] by blast

lemma trie_shaped_update_child:
  assumes "trie_shaped (PDict kvs)" and "trie_shaped child"
  shows "trie_shaped (PDict (AList.update [c] child kvs))"
proof -
  have "distinct (map fst (AList.update [c] child kvs))"
    using assms(1) by (simp add: distinct_update)
  moreover have "\<forall>kv \<in> set (AList.update [c] child kvs).
      if fst kv = ''__ids__'' then (case snd kv of PList ids \<Rightarrow> True | _ \<Rightarrow> False)
      else length (fst kv) = 1 \<and> trie_shaped (snd kv)"
    using assms by (intro ball_update) simp_all
  ultimately show ?thesis by simp
qed

lemma trie_shaped_update_ids:
  assumes "trie_shaped (PDict kvs)"
  shows "trie_shaped (PDict (AList.update ''__ids__'' (PList ids) kvs))"
proof -
  have "distinct (map fst (AList.update ''__ids__'' (PList ids) kvs))"
    using assms(1) by (simp add: distinct_update)
  moreover have "\<forall>kv \<in> set (AList.update ''__ids__'' (PList ids) kvs).
      if fst kv = ''__ids__'' then (case snd kv of PList ids \<Rightarrow> True | _ \<Rightarrow> False)
      else length (fst kv) = 1 \<and> trie_shaped (snd kv)"
    using assms by (intro ball_update) simp_all
  ultimately show ?thesis by simp
qed

lemma trie_shaped_items:
  assumes "trie_shaped (PDict kvs)" and "kv \<in> set kvs"
  shows "if fst kv = ''__ids__'' then (case snd kv of PList ids \<Rightarrow> True | _ \<Rightarrow> False)
         else length (fst kv) = 1 \<and> trie_shaped (snd kv)"
proof -
  from assms(1) have "\<forall>kv \<in> set kvs.
      if fst kv = ''__ids__'' then (case snd kv of PList ids \<Rightarrow> True | _ \<Rightarrow> False)
      else length (fst kv) = 1 \<and> trie_shaped (snd kv)" by simp
  with assms(2) show ?thesis by (rule_tac bspec)
qed

lemma trie_shaped_child:
  assumes "trie_shaped (PDict kvs)" and "map_of kvs [c] = Some child"
  shows "trie_shaped child"
proof -
  have "([c], child) \<in> set kvs" using assms(2) by (rule map_of_SomeD)
  from trie_shaped_items [OF assms(1) this] show ?thesis by simp
qed

lemma trie_shaped_ids:
  assumes "trie_shaped (PDict kvs)" and "map_of kvs ''__ids__'' = Some v"
  shows "\<exists>ids. v = PList ids"
proof -
  have "(''__ids__'', v) \<in> set kvs" using assms(2) by (rule map_of_SomeD)
  from trie_shaped_items [OF assms(1) this] show ?thesis by (cases v) simp_all
qed

lemma in_keys_iff: "k \<in> fst ` set kvs \<longleftrightarrow> map_of kvs k \<noteq> None"
  by (simp add: map_of_eq_None_iff)


lemma add_doc_id_shaped:
  assumes "trie_shaped node"
  shows "\<exists>node'. add_doc_id d node = Inr node' \<and> trie_shaped node'
           \<and> ids_of node' = Some (PList (add_new d (id_list (ids_of node))))
           \<and> (\<forall>c cs. node_at node' (c # cs) = node_at node (c # cs))"
proof -
  from assms obtain kvs where node: "node = PDict kvs" by (cases node) auto
  show ?thesis
  proof (cases "map_of kvs ''__ids__''")
    case None
    then have "''__ids__'' \<notin> fst ` set kvs" by (simp add: in_keys_iff)
    with None assms node show ?thesis
      by (simp add: add_doc_id_def add_new_def trie_shaped_update_ids del: trie_shaped.simps)
  next
    case (Some v)
    then have k: "''__ids__'' \<in> fst ` set kvs" by (simp add: in_keys_iff)
    from trie_shaped_ids [OF assms [unfolded node] Some] obtain ids where v: "v = PList ids" ..
    from Some v k assms node show ?thesis
      by (simp add: add_doc_id_def add_new_def trie_shaped_update_ids del: trie_shaped.simps)
  qed
qed

lemma ids_at_Nil [simp]: "ids_at node [] = ids_of node"
  by (simp add: ids_at_def)

lemma ids_at_Cons_dict:
  "ids_at (PDict kvs) (c # cs) = (case map_of kvs [c] of Some child \<Rightarrow> ids_at child cs | None \<Rightarrow> None)"
  by (simp add: ids_at_def split: option.splits)

lemma ids_at_empty_dict [simp]: "ids_at (PDict []) w = None"
  by (cases w) (simp_all add: ids_at_def)

lemma add_chars_shaped:
  assumes "trie_shaped node"
  shows "\<exists>node'. add_chars (add_doc_id d) node cw = Inr node' \<and> trie_shaped node'
           \<and> (\<forall>w. ids_at node' w =
                 (if w = cw then Some (PList (add_new d (id_list (ids_at node cw))))
                  else ids_at node w))"
  using assms
proof (induction cw arbitrary: node)
  case Nil
  from add_doc_id_shaped [OF Nil, of d] obtain node' where
    n: "add_doc_id d node = Inr node'" "trie_shaped node'"
       "ids_of node' = Some (PList (add_new d (id_list (ids_of node))))"
       "\<forall>c cs. node_at node' (c # cs) = node_at node (c # cs)" by blast
  have "ids_at node' w = (if w = [] then Some (PList (add_new d (id_list (ids_at node [])))) else ids_at node w)" for w
    using n(3,4) by (cases w) (simp_all add: ids_at_def)
  with n(1,2) show ?case by simp
next
  case (Cons c cs)
  from Cons.prems obtain kvs where node: "node = PDict kvs" by (cases node) auto
  define kvs1 where "kvs1 = (if [c] \<in> fst ` set kvs then kvs else AList.update [c] (PDict []) kvs)"
  define child where "child = (case map_of kvs [c] of Some ch \<Rightarrow> ch | None \<Rightarrow> PDict [])"
  have shaped1: "trie_shaped (PDict kvs1)"
    using Cons.prems node trie_shaped_update_child [of kvs "PDict []" c] by (simp add: kvs1_def)
  have child1: "map_of kvs1 [c] = Some child"
    by (auto simp: kvs1_def child_def in_keys_iff)
  have other1: "k \<noteq> [c] \<Longrightarrow> map_of kvs1 k = map_of kvs k" for k
    by (simp add: kvs1_def)
  have shaped_child: "trie_shaped child"
    using shaped1 child1 by (rule trie_shaped_child)
  from Cons.IH [OF shaped_child] obtain child' where
    c': "add_chars (add_doc_id d) child cs = Inr child'" "trie_shaped child'"
        "\<forall>w. ids_at child' w =
           (if w = cs then Some (PList (add_new d (id_list (ids_at child cs)))) else ids_at child w)"
    by blast
  define node' where "node' = PDict (AList.update [c] child' kvs1)"
  have run: "add_chars (add_doc_id d) node (c # cs) = Inr node'"
  proof (cases "[c] \<in> fst ` set kvs")
    case True
    then have "kvs1 = kvs" by (simp add: kvs1_def)
    with True child1 c'(1) show ?thesis by (simp add: node node'_def)
  next
    case False
    then have k1: "kvs1 = AList.update [c] (PDict []) kvs" by (simp add: kvs1_def)
    from False have "map_of kvs [c] = None" by (simp add: in_keys_iff)
    then have "child = PDict []" by (simp add: child_def)
    with False c'(1) show ?thesis by (simp add: node node'_def k1)
  qed
  have shaped': "trie_shaped node'"
    unfolding node'_def using shaped1 c'(2) by (rule trie_shaped_update_child)
  have child_ids: "ids_at node (c # ws) = ids_at child ws" for ws
    by (cases "map_of kvs [c]") (simp_all add: node ids_at_Cons_dict child_def)
  have "ids_at node' w =
          (if w = c # cs then Some (PList (add_new d (id_list (ids_at node (c # cs)))))
           else ids_at node w)" for w
  proof (cases w)
    case Nil
    then show ?thesis by (simp add: node'_def node other1)
  next
    case (Cons a ws)
    show ?thesis
    proof (cases "a = c")
      case True
      then show ?thesis
        using c'(3) child_ids by (simp add: Cons node'_def ids_at_Cons_dict)
    next
      case False
      then show ?thesis
        by (simp add: Cons node'_def node ids_at_Cons_dict other1)
    qed
  qed
  with run shaped' show ?case by blast
qed

section \<open>What a sequence of calls builds\<close>


lemma add_to_trie_shaped:
  assumes "trie_shaped trie"
  shows "\<exists>trie'. TrieManager_add_to_trie trie word d = Inr trie' \<and> trie_shaped trie'
           \<and> (\<forall>w. ids_at trie' w =
                 (if w = clean word \<and> w \<noteq> []
                  then Some (PList (add_new d (id_list (ids_at trie w))))
                  else ids_at trie w))"
proof (cases "clean word = []")
  case True
  then have "TrieManager_add_to_trie trie word d = Inr trie"
    by (simp add: TrieManager_add_to_trie_def clean_def)
  moreover have "\<forall>w. ids_at trie w =
      (if w = clean word \<and> w \<noteq> [] then Some (PList (add_new d (id_list (ids_at trie w))))
       else ids_at trie w)"
    using True by auto
  ultimately show ?thesis using assms by blast
next
  case False
  from add_chars_shaped [OF assms, of d "clean word"] obtain trie' where
    t: "add_chars (add_doc_id d) trie (clean word) = Inr trie'" "trie_shaped trie'"
       "\<forall>w. ids_at trie' w =
          (if w = clean word then Some (PList (add_new d (id_list (ids_at trie (clean word)))))
           else ids_at trie w)" by blast
  have "TrieManager_add_to_trie trie word d = Inr trie'"
    using False t(1) by (simp add: TrieManager_add_to_trie_def clean_def Let_def)
  moreover have "\<forall>w. ids_at trie' w =
      (if w = clean word \<and> w \<noteq> [] then Some (PList (add_new d (id_list (ids_at trie w))))
       else ids_at trie w)"
    using False t(3) by auto
  ultimately show ?thesis using t(2) by blast
qed

lemma ids_given_Nil [simp]: "ids_given [] w = []"
  by (simp add: ids_given_def)

lemma ids_given_Cons:
  "ids_given ((word, d) # calls) w = (if clean word = w then d # ids_given calls w else ids_given calls w)"
  by (simp add: ids_given_def)

lemma ids_given_append [simp]: "ids_given (xs @ ys) w = ids_given xs w @ ids_given ys w"
  by (simp add: ids_given_def)

lemma add_words_shaped:
  assumes "trie_shaped trie"
  shows "\<exists>trie'. add_words trie calls = Inr trie' \<and> trie_shaped trie'
           \<and> (\<forall>w. ids_at trie' w =
                 (if w \<noteq> [] \<and> ids_given calls w \<noteq> []
                  then Some (PList (foldl (\<lambda>ids d. add_new d ids) (id_list (ids_at trie w))
                                     (ids_given calls w)))
                  else ids_at trie w))"
  using assms
proof (induction calls arbitrary: trie)
  case Nil
  then show ?case by simp
next
  case (Cons call calls)
  obtain word d where call: "call = (word, d)" by (cases call)
  from add_to_trie_shaped [OF Cons.prems, of word d] obtain t1 where
    t1: "TrieManager_add_to_trie trie word d = Inr t1" "trie_shaped t1"
        "\<And>w. ids_at t1 w =
           (if w = clean word \<and> w \<noteq> [] then Some (PList (add_new d (id_list (ids_at trie w))))
            else ids_at trie w)" by blast
  from Cons.IH [OF t1(2)] obtain t2 where
    t2: "add_words t1 calls = Inr t2" "trie_shaped t2"
        "\<And>w. ids_at t2 w =
           (if w \<noteq> [] \<and> ids_given calls w \<noteq> []
            then Some (PList (foldl (\<lambda>ids d. add_new d ids) (id_list (ids_at t1 w))
                               (ids_given calls w)))
            else ids_at t1 w)" by blast
  have run: "add_words trie (call # calls) = Inr t2"
    using t1(1) t2(1) by (simp add: call)
  have "ids_at t2 w =
          (if w \<noteq> [] \<and> ids_given (call # calls) w \<noteq> []
           then Some (PList (foldl (\<lambda>ids d. add_new d ids) (id_list (ids_at trie w))
                              (ids_given (call # calls) w)))
           else ids_at trie w)" for w
    using t2(3) [of w] t1(3) [of w] by (auto simp: call ids_given_Cons)
  with run t2(2) show ?case by blast
qed

lemma filter_removeAll_seen:
  "x \<in> A \<Longrightarrow> filter (\<lambda>y. y \<notin> A) (removeAll x l) = filter (\<lambda>y. y \<notin> A) l"
  by (induction l) auto

lemma filter_removeAll_new:
  "filter (\<lambda>y. y \<notin> set (acc @ [x])) l = filter (\<lambda>y. y \<notin> set acc) (removeAll x l)"
  by (induction l) auto

lemma foldl_add_new:
  "foldl (\<lambda>ids d. add_new d ids) acc ds = acc @ filter (\<lambda>x. x \<notin> set acc) (first_seen ds)"
proof (induction ds arbitrary: acc)
  case Nil
  then show ?case by simp
next
  case (Cons x xs)
  show ?case
  proof (cases "x \<in> set acc")
    case True
    with Cons.IH [of acc] show ?thesis
      by (simp add: add_new_def filter_removeAll_seen)
  next
    case False
    with Cons.IH [of "acc @ [x]"] filter_removeAll_new [of acc x "first_seen xs"] show ?thesis
      by (simp add: add_new_def)
  qed
qed

lemma foldl_add_new_first_seen: "foldl (\<lambda>ids d. add_new d ids) [] ds = first_seen ds"
  by (simp add: foldl_add_new)

lemma set_first_seen [simp]: "set (first_seen xs) = set xs"
  by (induction xs) auto

lemma distinct_first_seen [simp]: "distinct (first_seen xs)"
  by (induction xs) (auto simp: distinct_removeAll)

lemma trie_shaped_empty [simp]: "trie_shaped (PDict [])"
  by simp

lemma add_words_from_empty:
  "\<exists>trie. add_words (PDict []) calls = Inr trie \<and> trie_shaped trie
     \<and> (\<forall>w. ids_at trie w =
           (if w \<noteq> [] \<and> ids_given calls w \<noteq> [] then Some (PList (first_seen (ids_given calls w)))
            else None))"
proof -
  from add_words_shaped [OF trie_shaped_empty, of calls] obtain trie where
    t: "add_words (PDict []) calls = Inr trie" "trie_shaped trie"
       "\<forall>w. ids_at trie w =
          (if w \<noteq> [] \<and> ids_given calls w \<noteq> []
           then Some (PList (foldl (\<lambda>ids d. add_new d ids) (id_list (ids_at (PDict []) w))
                              (ids_given calls w)))
           else ids_at (PDict []) w)" by blast
  have "\<forall>w. ids_at trie w =
      (if w \<noteq> [] \<and> ids_given calls w \<noteq> [] then Some (PList (first_seen (ids_given calls w)))
       else None)"
    using t(3) by (simp add: foldl_add_new_first_seen)
  with t(1,2) show ?thesis by blast
qed





section \<open>Keys and terminal nodes\<close>

lemma all_keys_shaped:
  "trie_shaped node \<Longrightarrow> k \<in> set (all_keys node) \<Longrightarrow> k = ''__ids__'' \<or> length k = 1"
  and all_keys_items_shaped:
  "(\<And>kv. kv \<in> set kvs \<Longrightarrow>
      (if fst kv = ''__ids__'' then (case snd kv of PList ids \<Rightarrow> True | _ \<Rightarrow> False)
       else length (fst kv) = 1 \<and> trie_shaped (snd kv)))
    \<Longrightarrow> k \<in> set (all_keys_items kvs) \<Longrightarrow> k = ''__ids__'' \<or> length k = 1"
proof (induction node and kvs rule: all_keys_all_keys_items.induct)
  case (1 kvs)
  from "1.prems"(1) have "\<And>kv. kv \<in> set kvs \<Longrightarrow>
      (if fst kv = ''__ids__'' then (case snd kv of PList ids \<Rightarrow> True | _ \<Rightarrow> False)
       else length (fst kv) = 1 \<and> trie_shaped (snd kv))"
    by (rule trie_shaped_items)
  with "1.IH" "1.prems"(2) show ?case by simp
next
  case (9 key v kvs)
  have here: "if key = ''__ids__'' then (case v of PList ids \<Rightarrow> True | _ \<Rightarrow> False)
              else length key = 1 \<and> trie_shaped v"
    using "9.prems"(1) [of "(key, v)"] by (simp split: if_splits)
  have rest: "\<And>kv. kv \<in> set kvs \<Longrightarrow>
      (if fst kv = ''__ids__'' then (case snd kv of PList ids \<Rightarrow> True | _ \<Rightarrow> False)
       else length (fst kv) = 1 \<and> trie_shaped (snd kv))"
    using "9.prems"(1) by simp
  from "9.prems"(2) consider "k = key" | "k \<in> set (all_keys v)" | "k \<in> set (all_keys_items kvs)"
    by auto
  then show ?case
  proof cases
    case 1
    with here show ?thesis by (cases "key = ''__ids__''") simp_all
  next
    case 2
    show ?thesis
    proof (cases "key = ''__ids__''")
      case True
      with here 2 show ?thesis by (cases v) simp_all
    next
      case False
      with here have "trie_shaped v" by simp
      from "9.IH"(1) [OF this 2] show ?thesis .
    qed
  next
    case 3
    from "9.IH"(2) [OF rest 3] show ?thesis by simp
  qed
qed simp_all

lemma node_at_shaped:
  "trie_shaped node \<Longrightarrow> node_at node w = Some node' \<Longrightarrow> trie_shaped node'"
proof (induction w arbitrary: node)
  case Nil
  then show ?case by simp
next
  case (Cons c cs)
  from Cons.prems(1) obtain kvs where node: "node = PDict kvs" by (cases node) auto
  from Cons.prems(2) obtain child where
    child: "map_of kvs [c] = Some child" "node_at child cs = Some node'"
    by (auto simp: node split: option.splits)
  from Cons.prems(1) child(1) have "trie_shaped child"
    unfolding node by (rule trie_shaped_child)
  from Cons.IH [OF this child(2)] show ?case .
qed

lemma has_ids_shaped: "trie_shaped node \<Longrightarrow> has_ids node = (ids_of node \<noteq> None)"
proof -
  assume "trie_shaped node"
  then obtain kvs where "node = PDict kvs" by (cases node) auto
  then show ?thesis by (simp add: has_ids_def in_keys_iff)
qed

lemma has_ids_at:
  assumes "trie_shaped trie"
  shows "(\<exists>node. node_at trie w = Some node \<and> has_ids node) = (ids_at trie w \<noteq> None)"
proof (cases "node_at trie w")
  case None
  then show ?thesis by (simp add: ids_at_def)
next
  case (Some node)
  with assms have "trie_shaped node" by (rule node_at_shaped)
  with Some show ?thesis by (simp add: ids_at_def has_ids_shaped)
qed

lemma ids_given_empty_iff: "(ids_given calls w = []) = (w \<notin> clean ` fst ` set calls)"
  by (auto simp: ids_given_def filter_empty_conv)

text \<open>
  Claim C9. Every sequence of calls of \<^verbatim>\<open>_add_to_trie\<close> on an empty dict returns
  a trie; in it every key of every dict other than \<^verbatim>\<open>__ids__\<close> has length one, so the
  key \<^verbatim>\<open>__ids__\<close>, of length seven, is no edge key; and the node at a path has the key
  \<^verbatim>\<open>__ids__\<close> exactly when the path is the non-empty normal form of a word of one of
  the calls.
\<close>

theorem add_to_trie_keys:
  "\<exists>trie. add_words (PDict []) calls = Inr trie
     \<and> (\<forall>k \<in> set (all_keys trie). k \<noteq> ''__ids__'' \<longrightarrow> length k = 1)
     \<and> length ''__ids__'' = 7
     \<and> (\<forall>w. (\<exists>node. node_at trie w = Some node \<and> has_ids node)
             = (w \<noteq> [] \<and> w \<in> clean ` fst ` set calls))"
proof -
  from add_words_from_empty [of calls] obtain trie where
    t: "add_words (PDict []) calls = Inr trie" "trie_shaped trie"
       "\<forall>w. ids_at trie w =
          (if w \<noteq> [] \<and> ids_given calls w \<noteq> [] then Some (PList (first_seen (ids_given calls w)))
           else None)" by blast
  have keys: "\<forall>k \<in> set (all_keys trie). k \<noteq> ''__ids__'' \<longrightarrow> length k = 1"
    using all_keys_shaped [OF t(2)] by blast
  have "(\<exists>node. node_at trie w = Some node \<and> has_ids node)
          = (w \<noteq> [] \<and> w \<in> clean ` fst ` set calls)" for w
    using has_ids_at [OF t(2), of w] t(3) ids_given_empty_iff [of calls w] by simp
  with t(1) keys show ?thesis by simp
qed

theorem add_to_trie_keys_witness:
  "\<exists>trie. add_words (PDict []) example_calls = Inr trie
     \<and> list_all (\<lambda>k. k = ''__ids__'' \<or> length k = 1) (all_keys trie)
     \<and> (\<exists>node. node_at trie ''onion'' = Some node \<and> has_ids node)
     \<and> (\<nexists>node. node_at trie ''oni'' = Some node \<and> has_ids node)"
proof -
  have a: "''onion'' \<in> clean ` fst ` set example_calls"
    and b: "''oni'' \<notin> clean ` fst ` set example_calls"
    by (simp_all add: example_calls_def clean_def str_strip_def is_space_def str_lower_def
          lower_char_def char_of_def bit_0)
  from add_to_trie_keys [of example_calls] obtain trie where
    t: "add_words (PDict []) example_calls = Inr trie
        \<and> (\<forall>k \<in> set (all_keys trie). k \<noteq> ''__ids__'' \<longrightarrow> length k = 1)
        \<and> length ''__ids__'' = 7
        \<and> (\<forall>w. (\<exists>node. node_at trie w = Some node \<and> has_ids node)
               = (w \<noteq> [] \<and> w \<in> clean ` fst ` set example_calls))" ..
  note t1 = t [THEN conjunct1]
    and t2 = t [THEN conjunct2, THEN conjunct1]
    and t3 = t [THEN conjunct2, THEN conjunct2, THEN conjunct2]
  from t2 have k: "list_all (\<lambda>k. k = ''__ids__'' \<or> length k = 1) (all_keys trie)"
    unfolding list_all_iff by blast
  from t3 have "(\<exists>node. node_at trie ''onion'' = Some node \<and> has_ids node)
             = (''onion'' \<noteq> [] \<and> ''onion'' \<in> clean ` fst ` set example_calls)" by (rule spec)
  with a have o1: "\<exists>node. node_at trie ''onion'' = Some node \<and> has_ids node" by simp
  from t3 have "(\<exists>node. node_at trie ''oni'' = Some node \<and> has_ids node)
             = (''oni'' \<noteq> [] \<and> ''oni'' \<in> clean ` fst ` set example_calls)" by (rule spec)
  with b have o2: "\<nexists>node. node_at trie ''oni'' = Some node \<and> has_ids node" by simp
  show ?thesis
    by (rule exI [of _ trie]) (rule conjI [OF t1 conjI [OF k conjI [OF o1 o2]]])
qed

section \<open>The id lists of the two builders\<close>










lemma json_encode_plain:
  "json_plain x \<Longrightarrow> json_encode dflt x = Inr x"
  "\<forall>x \<in> set xs. json_plain x \<Longrightarrow> json_encode_list dflt xs = Inr xs"
  "\<forall>kv \<in> set kvs. json_plain (snd kv) \<Longrightarrow> json_encode_items dflt kvs = Inr kvs"
  by (induction dflt x and dflt xs and dflt kvs
      rule: json_encode_json_encode_list_json_encode_items.induct) simp_all



lemmas string_evals = clean_def str_strip_def is_space_def str_lower_def lower_char_def char_of_def bit_0






section \<open>The scenario of the specification\<close>

lemma scenario_rows_built: "add_rows '';'' (PDict []) scenario_rows = Inr scenario_trie"
  by (simp add: scenario_rows_def scenario_trie_def str_split_def TrieManager_add_to_trie_def
        add_doc_id_def string_evals)

lemma scenario_encoded: "json_encode json_default scenario_trie = Inr scenario_trie"
  by (rule json_encode_plain) (simp add: scenario_trie_def)

lemma scenario_init:
  "TrieManager_init scenario_world ''/data/db.csv'' ''/data/trie.json'' ''id'' ''ingredients'' '';''
     = (print MsgGenerationComplete ((open_w (print MsgGenerating scenario_world) ''/data/trie.json'')
          \<lparr>json_load := (json_load (open_w (print MsgGenerating scenario_world) ''/data/trie.json''))
              (''/data/trie.json'' := Inr scenario_trie)\<rparr>),
        Inr (example_manager\<lparr>trie_root := scenario_trie\<rparr>))"
  by (simp add: TrieManager_init_def TrieManager_generate_trie_if_needed_def
        TrieManager_get_file_mtime_def TrieManager_load_trie_def dump_to_def Let_def
        scenario_rows_built scenario_encoded example_manager_def scenario_world_def print_def open_w_def)

lemma scenario_manager_eq: "scenario_manager = example_manager\<lparr>trie_root := scenario_trie\<rparr>"
  by (simp add: scenario_manager_def scenario_init)

lemma scenario_searches:
  "TrieManager_search scenario_manager (PStr ''tom'') = Inr [PStr ''tomato'']"
  "TrieManager_search scenario_manager (PStr ''on'') = Inr [PStr ''onion'']"
  "TrieManager_search scenario_manager (PStr ''z'') = Inr []"
  "TrieManager_search scenario_manager (PStr ''Tom'') = Inr [PStr ''tomato'']"
  "TrieManager_search scenario_manager (PStr ''  TOM  '') = Inr []"
  "TrieManager_search scenario_manager (PStr '''') = Inr []"
  "TrieManager_search scenario_manager (PStr ''t'') = Inr [PStr ''tomato'']"
  "TrieManager_search scenario_manager (PInt 5) = Inl TypeError"
  "TrieManager_search scenario_manager (PList [PStr ''t'']) = Inl AttributeError"
  "TrieManager_search scenario_manager PNone = Inr []"
  by (simp_all add: scenario_manager_eq example_manager_def scenario_trie_def TrieManager_search_def
        string_evals)

section \<open>Search: one more character\<close>










section \<open>Normal forms at build time and at query time\<close>

text \<open>
  Claim C2 does not hold of the code. \<^verbatim>\<open>_add_to_trie\<close> lower-cases and strips a word
  (its comment: strip and lower for consistent matching), \<^verbatim>\<open>search\<close> only lower-cases
  the prefix. In the scenario \<^verbatim>\<open>search("tom")\<close> and \<^verbatim>\<open>search("Tom")\<close> both return
  \<^verbatim>\<open>["tomato"]\<close>, but \<^verbatim>\<open>search("  TOM  ")\<close> returns \<^verbatim>\<open>[]\<close>, although the builder puts
  the word \<^verbatim>\<open>"  TOM  "\<close> where it puts \<^verbatim>\<open>"tom"\<close>.
\<close>

theorem search_does_not_strip:
  "TrieManager_search scenario_manager (PStr ''tom'') = Inr [PStr ''tomato'']
   \<and> TrieManager_search scenario_manager (PStr ''Tom'') = Inr [PStr ''tomato'']
   \<and> TrieManager_search scenario_manager (PStr ''  TOM  '') = Inr []
   \<and> TrieManager_add_to_trie (PDict []) ''  TOM  '' (PInt 1)
       = TrieManager_add_to_trie (PDict []) ''tom'' (PInt 1)"
  by (simp add: scenario_searches TrieManager_add_to_trie_def string_evals)

end
